theory Spec2Isabelle
  imports Main "HOL-Library.Word"
begin

unbundle bit_operations_syntax

section \<open>Machine types\<close>

text \<open>
  The ESP8266 is a 32-bit little-endian target: \<open>unsigned long\<close> and \<open>uint32_t\<close> are
  32 bits wide and wrap around, \<open>uint8_t\<close> is a byte.  The counters declared \<open>int\<close>
  (\<open>consecutiveFailures\<close>, \<open>wifiReconnectCount\<close>, \<open>mqttReconnectCount\<close>) are 32-bit
  two's complement: they are 32-bit words too, incremented with wrap-around as the
  compiled code does, and compared with the signed orders \<open>\<le>s\<close> and \<open><s\<close>.
\<close>

type_synonym u8 = "8 word"
type_synonym u16 = "16 word"
type_synonym u32 = "32 word"
type_synonym i32 = "32 word"

section \<open>Overflow-safe time comparison\<close>

text \<open>
  \<open>timeElapsed(startTime, interval)\<close> reads \<open>millis()\<close> once; the reading is the first
  argument of the model.
\<close>

definition timeElapsed :: "u32 \<Rightarrow> u32 \<Rightarrow> u32 \<Rightarrow> bool" where
  "timeElapsed currentTime startTime interval =
     ((currentTime - startTime \<ge> interval) \<or> (currentTime < startTime))"

section \<open>CRC32 of the retention record\<close>

text \<open>One turn of the inner \<open>for\<close> loop of \<open>calculateCRC32\<close>; \<open>cbit\<close> is \<open>c & i\<close>.\<close>

definition crc_bit :: "u32 \<Rightarrow> bool \<Rightarrow> u32" where
  "crc_bit crc cbit =
     (let bit0 = (crc AND 0x80000000 \<noteq> 0);
          bit1 = (if cbit then \<not> bit0 else bit0);
          crc1 = push_bit 1 crc
      in if bit1 then crc1 XOR 0x04c11db7 else crc1)"

text \<open>The inner loop \<open>for (uint32_t i = 0x80; i > 0; i >>= 1)\<close>, started at mask \<open>i\<close>.\<close>

function crc_byte_loop :: "u32 \<Rightarrow> u8 \<Rightarrow> u32 \<Rightarrow> u32" where
  "crc_byte_loop crc c i =
     (if i > 0 then crc_byte_loop (crc_bit crc (ucast c AND i \<noteq> 0)) c (drop_bit 1 i)
      else crc)"
  by pat_completeness auto
termination
proof (relation "measure (\<lambda>(crc, c, i). unat i)")
  show "wf (measure (\<lambda>(crc :: u32, c :: u8, i :: u32). unat i))" by simp
next
  fix crc :: u32 and c :: u8 and i :: u32
  assume "0 < i"
  then have "unat i \<noteq> 0" by (simp add: unat_eq_0 word_greater_zero_iff)
  then have "unat i div 2 < unat i" by simp
  then show "((crc_bit crc (ucast c AND i \<noteq> 0), c, drop_bit 1 i), (crc, c, i))
      \<in> measure (\<lambda>(crc, c, i). unat i)"
    by (simp add: drop_bit_eq_div unat_div)
qed

declare crc_byte_loop.simps [simp del]

text \<open>The outer loop \<open>while (length--)\<close> over the bytes at \<open>data\<close>.\<close>

fun crc_bytes :: "u32 \<Rightarrow> u8 list \<Rightarrow> u32" where
  "crc_bytes crc [] = crc"
| "crc_bytes crc (c # data) = crc_bytes (crc_byte_loop crc c 0x80) data"

definition calculateCRC32 :: "u8 list \<Rightarrow> u32" where
  "calculateCRC32 data = crc_bytes 0xffffffff data"


section \<open>The retention record and its memory image\<close>

record RTCData =
  crc32 :: u32
  totalRestarts :: u32
  watchdogRestarts :: u32
  memoryRestarts :: u32
  wifiRestarts :: u32
  mqttRestarts :: u32
  healthRestarts :: u32
  userRestarts :: u32
  unknownRestarts :: u32
  lastRestartReason :: u32
  coffeePouredTotal :: u32

datatype RestartReason =
    RESTART_UNKNOWN
  | RESTART_USER
  | RESTART_WATCHDOG
  | RESTART_MEMORY
  | RESTART_WIFI
  | RESTART_MQTT
  | RESTART_HEALTH
  | RESTART_POWER_ON

text \<open>The enumerators' values, as stored in \<open>lastRestartReason\<close>.\<close>

fun reason_code :: "RestartReason \<Rightarrow> u32" where
  "reason_code RESTART_UNKNOWN = 0"
| "reason_code RESTART_USER = 1"
| "reason_code RESTART_WATCHDOG = 2"
| "reason_code RESTART_MEMORY = 3"
| "reason_code RESTART_WIFI = 4"
| "reason_code RESTART_MQTT = 5"
| "reason_code RESTART_HEALTH = 6"
| "reason_code RESTART_POWER_ON = 7"

text \<open>
  The struct is eleven \<open>uint32_t\<close> fields, 44 bytes without padding, each field stored
  least significant byte first.  \<open>rtc_bytes\<close> is the memory image that
  \<open>(uint8_t*) &rtcData\<close> points to.
\<close>

definition word_bytes :: "u32 \<Rightarrow> u8 list" where
  "word_bytes w = [ucast w, ucast (drop_bit 8 w), ucast (drop_bit 16 w), ucast (drop_bit 24 w)]"

definition bytes_word :: "u8 \<Rightarrow> u8 \<Rightarrow> u8 \<Rightarrow> u8 \<Rightarrow> u32" where
  "bytes_word b0 b1 b2 b3 =
     ucast b0 OR push_bit 8 (ucast b1) OR push_bit 16 (ucast b2) OR push_bit 24 (ucast b3)"

definition rtc_words :: "RTCData \<Rightarrow> u32 list" where
  "rtc_words r =
     [crc32 r, totalRestarts r, watchdogRestarts r, memoryRestarts r, wifiRestarts r,
      mqttRestarts r, healthRestarts r, userRestarts r, unknownRestarts r,
      lastRestartReason r, coffeePouredTotal r]"

definition rtc_bytes :: "RTCData \<Rightarrow> u8 list" where
  "rtc_bytes r = concat (map word_bytes (rtc_words r))"

fun bytes_words :: "u8 list \<Rightarrow> u32 list" where
  "bytes_words (b0 # b1 # b2 # b3 # bs) = bytes_word b0 b1 b2 b3 # bytes_words bs"
| "bytes_words bs = []"

definition words_rtc :: "u32 list \<Rightarrow> RTCData" where
  "words_rtc ws =
     \<lparr> crc32 = ws ! 0, totalRestarts = ws ! 1, watchdogRestarts = ws ! 2,
       memoryRestarts = ws ! 3, wifiRestarts = ws ! 4, mqttRestarts = ws ! 5,
       healthRestarts = ws ! 6, userRestarts = ws ! 7, unknownRestarts = ws ! 8,
       lastRestartReason = ws ! 9, coffeePouredTotal = ws ! 10 \<rparr>"

text \<open>
  \<open>ESP.rtcUserMemoryRead(0, &rtcData, sizeof(rtcData))\<close>: the retention memory
  collaborator copies the 44-byte block into the struct, or fails.  The model keeps the
  block as a byte list and reports a block of any other size as a failed read, so
  \<open>words_rtc\<close> is only applied to eleven words.
\<close>

definition rtcUserMemoryRead :: "u8 list \<Rightarrow> RTCData option" where
  "rtcUserMemoryRead mem =
     (if length mem = 44 then Some (words_rtc (bytes_words mem)) else None)"

section \<open>Program state\<close>

datatype State = IDLE | WAITING | POURING

text \<open>
  The module-scoped variables of the sketch, the \<open>static\<close> local \<open>lastRTCUpdate\<close> of
  \<open>loop\<close>, and \<open>rtcMem\<close>, the block of RTC user memory at offset 0.
\<close>

record sys =
  rtcData :: RTCData
  rtcMem :: "u8 list"
  lastSuccessfulMetrics :: u32
  lastMQTTMessage :: u32
  bootTime :: u32
  forceRestart :: bool
  pendingRestartReason :: RestartReason
  currentState :: State
  eventStartTime :: u32
  lastAliveTime :: u32
  lastMemoryCheck :: u32
  lastWiFiCheck :: u32
  lastMQTTAttempt :: u32
  lastConnectionHealth :: u32
  lastRTCUpdate :: u32
  coffeePouredCount :: u32
  systemHealthy :: bool
  consecutiveFailures :: i32
  wifiReconnectCount :: i32
  mqttReconnectCount :: i32

definition memoryCheckInterval :: u32 where "memoryCheckInterval = 300000"
definition wifiCheckInterval :: u32 where "wifiCheckInterval = 30000"
definition coffeeWaitTime :: u32 where "coffeeWaitTime = 150000"
definition stateTimeout :: u32 where "stateTimeout = 300000"
definition maxSilentTime :: u32 where "maxSilentTime = 300000"
definition maxMQTTSilentTime :: u32 where "maxMQTTSilentTime = 600000"
definition minFreeHeap :: u32 where "minFreeHeap = 1000"

text \<open>The variables as their initialisers leave them at reset; \<open>mem\<close> is what the RTC
  memory holds at that moment.\<close>

definition globals_at_reset :: "u8 list \<Rightarrow> sys" where
  "globals_at_reset mem =
     \<lparr> rtcData = \<lparr> crc32 = 0, totalRestarts = 0, watchdogRestarts = 0, memoryRestarts = 0,
         wifiRestarts = 0, mqttRestarts = 0, healthRestarts = 0, userRestarts = 0,
         unknownRestarts = 0, lastRestartReason = 0, coffeePouredTotal = 0 \<rparr>,
       rtcMem = mem,
       lastSuccessfulMetrics = 0, lastMQTTMessage = 0, bootTime = 0,
       forceRestart = False, pendingRestartReason = RESTART_UNKNOWN,
       currentState = IDLE, eventStartTime = 0, lastAliveTime = 0, lastMemoryCheck = 0,
       lastWiFiCheck = 0, lastMQTTAttempt = 0, lastConnectionHealth = 0, lastRTCUpdate = 0,
       coffeePouredCount = 0, systemHealthy = True, consecutiveFailures = 0,
       wifiReconnectCount = 0, mqttReconnectCount = 0 \<rparr>"

section \<open>Persistent store\<close>

text \<open>\<open>readRTCData\<close>: the result and the state, whose \<open>rtcData\<close> holds the block read
  whenever the read itself succeeded.\<close>

definition readRTCData :: "sys \<Rightarrow> bool \<times> sys" where
  "readRTCData s =
     (case rtcUserMemoryRead (rtcMem s) of
        Some r \<Rightarrow>
          (let s1 = s\<lparr>rtcData := r\<rparr>;
               crcOfData = calculateCRC32 (drop 4 (rtc_bytes (rtcData s1)))
           in (crcOfData = crc32 (rtcData s1), s1))
      | None \<Rightarrow> (False, s))"

definition writeRTCData :: "sys \<Rightarrow> sys" where
  "writeRTCData s =
     (let r = (rtcData s)\<lparr>crc32 := calculateCRC32 (drop 4 (rtc_bytes (rtcData s)))\<rparr>
      in s\<lparr>rtcData := r, rtcMem := rtc_bytes r\<rparr>)"

definition initRTCData :: "sys \<Rightarrow> sys" where
  "initRTCData s =
     writeRTCData (s\<lparr>rtcData := (rtcData s)
       \<lparr> totalRestarts := 0, watchdogRestarts := 0, memoryRestarts := 0, wifiRestarts := 0,
         mqttRestarts := 0, healthRestarts := 0, userRestarts := 0, unknownRestarts := 0,
         lastRestartReason := reason_code RESTART_POWER_ON, coffeePouredTotal := 0 \<rparr>\<rparr>)"

text \<open>The \<open>switch\<close> of \<open>recordRestart\<close>: \<open>RESTART_UNKNOWN\<close> and \<open>RESTART_POWER_ON\<close> have
  no \<open>case\<close> and take the \<open>default\<close> branch.\<close>

fun count_reason :: "RestartReason \<Rightarrow> RTCData \<Rightarrow> RTCData" where
  "count_reason RESTART_USER r = r\<lparr>userRestarts := userRestarts r + 1\<rparr>"
| "count_reason RESTART_WATCHDOG r = r\<lparr>watchdogRestarts := watchdogRestarts r + 1\<rparr>"
| "count_reason RESTART_MEMORY r = r\<lparr>memoryRestarts := memoryRestarts r + 1\<rparr>"
| "count_reason RESTART_WIFI r = r\<lparr>wifiRestarts := wifiRestarts r + 1\<rparr>"
| "count_reason RESTART_MQTT r = r\<lparr>mqttRestarts := mqttRestarts r + 1\<rparr>"
| "count_reason RESTART_HEALTH r = r\<lparr>healthRestarts := healthRestarts r + 1\<rparr>"
| "count_reason _ r = r\<lparr>unknownRestarts := unknownRestarts r + 1\<rparr>"

definition recordRestart :: "RestartReason \<Rightarrow> sys \<Rightarrow> sys" where
  "recordRestart reason s =
     (let r1 = (rtcData s)\<lparr>totalRestarts := totalRestarts (rtcData s) + 1\<rparr>;
          r2 = r1\<lparr>lastRestartReason := reason_code reason\<rparr>;
          r3 = count_reason reason r2;
          r4 = r3\<lparr>coffeePouredTotal := coffeePouredCount s\<rparr>
      in writeRTCData (s\<lparr>rtcData := r4\<rparr>))"



text \<open>The ten-minute block of \<open>loop\<close> that saves the coffee count.  \<open>now\<close> is the
  reading inside \<open>timeElapsed\<close>, \<open>now'\<close> the one assigned to \<open>lastRTCUpdate\<close>.\<close>

definition rtc_checkpoint :: "u32 \<Rightarrow> u32 \<Rightarrow> sys \<Rightarrow> sys" where
  "rtc_checkpoint now now' s =
     (if timeElapsed now (lastRTCUpdate s) 600000 then
        writeRTCData (s\<lparr> lastRTCUpdate := now',
          rtcData := (rtcData s)\<lparr>coffeePouredTotal :=
                       coffeePouredTotal (rtcData s) + coffeePouredCount s\<rparr>,
          coffeePouredCount := 0 \<rparr>)
      else s)"


section \<open>Health monitor\<close>

text \<open>\<open>now\<close> is the reading taken on entry; \<open>t1\<close> and \<open>t2\<close> are the readings inside the
  two \<open>timeElapsed\<close> calls.\<close>

definition performHealthCheck :: "u32 \<Rightarrow> u32 \<Rightarrow> u32 \<Rightarrow> sys \<Rightarrow> sys" where
  "performHealthCheck now t1 t2 s =
     (if timeElapsed t1 (lastSuccessfulMetrics s) maxSilentTime then
        s\<lparr>pendingRestartReason := RESTART_HEALTH, forceRestart := True\<rparr>
      else if timeElapsed t2 (lastMQTTMessage s) maxMQTTSilentTime then
        s\<lparr>pendingRestartReason := RESTART_MQTT, forceRestart := True\<rparr>
      else if 20 <s wifiReconnectCount s then
        s\<lparr>pendingRestartReason := RESTART_WIFI, forceRestart := True\<rparr>
      else if 50 <s mqttReconnectCount s then
        s\<lparr>pendingRestartReason := RESTART_MQTT, forceRestart := True\<rparr>
      else if now - bootTime s > 86400000 then
        s\<lparr>wifiReconnectCount := 0, mqttReconnectCount := 0, bootTime := now\<rparr>
      else s)"

section \<open>Primary link\<close>

text \<open>
  \<open>setupWiFi\<close> starts the connection and polls \<open>WiFi.status()\<close> until it reports a
  connection or the timeout has elapsed; the polling loop touches no variable of the
  program; it ends after \<open>wifiTimeout\<close> (30 seconds) at the latest.  \<open>connected\<close> is
  the status read after the loop.
\<close>

definition setupWiFi :: "bool \<Rightarrow> sys \<Rightarrow> sys" where
  "setupWiFi connected s =
     (if connected then s\<lparr>systemHealthy := True, consecutiveFailures := 0\<rparr>
      else s\<lparr> systemHealthy := False,
               consecutiveFailures := consecutiveFailures s + 1,
               wifiReconnectCount := wifiReconnectCount s + 1 \<rparr>)"

text \<open>
  \<open>linkDown\<close> is the first test (\<open>WiFi.status() != WL_CONNECTED\<close> or a zero address),
  \<open>connected\<close> the status \<open>setupWiFi\<close> ends with, \<open>stillConnected\<close> the status read after
  \<open>setupWiFi\<close> has returned.
\<close>

definition checkWiFiConnection :: "u32 \<Rightarrow> u32 \<Rightarrow> bool \<Rightarrow> bool \<Rightarrow> bool \<Rightarrow> sys \<Rightarrow> sys" where
  "checkWiFiConnection now now' linkDown connected stillConnected s =
     (if timeElapsed now (lastWiFiCheck s) wifiCheckInterval then
        (let s1 = s\<lparr>lastWiFiCheck := now'\<rparr> in
         if linkDown then
           (let s2 = setupWiFi connected s1 in
            if \<not> stillConnected then
              (let s3 = s2\<lparr>consecutiveFailures := consecutiveFailures s2 + 1\<rparr> in
               if 5 \<le>s consecutiveFailures s3 then
                 s3\<lparr>pendingRestartReason := RESTART_WIFI, forceRestart := True\<rparr>
               else s3)
            else s2\<lparr>consecutiveFailures := 0\<rparr>)
         else s1)
      else s)"

section \<open>Brew state machine\<close>

text \<open>\<open>pourCoffee\<close> in its two halves: entering \<open>POURING\<close>, and, after the relay pulse,
  counting the cup and returning to \<open>IDLE\<close>.\<close>

definition pourCoffee_begin :: "sys \<Rightarrow> sys" where
  "pourCoffee_begin s = s\<lparr>currentState := POURING\<rparr>"

definition pourCoffee_finish :: "sys \<Rightarrow> sys" where
  "pourCoffee_finish s = s\<lparr>coffeePouredCount := coffeePouredCount s + 1, currentState := IDLE\<rparr>"

definition pourCoffee :: "sys \<Rightarrow> sys" where
  "pourCoffee s = pourCoffee_finish (pourCoffee_begin s)"

definition handleCoffeeProcess :: "u32 \<Rightarrow> sys \<Rightarrow> sys" where
  "handleCoffeeProcess now s =
     (if currentState s = WAITING \<and> timeElapsed now (eventStartTime s) coffeeWaitTime
      then pourCoffee s else s)"

definition checkStateTimeout :: "u32 \<Rightarrow> sys \<Rightarrow> sys" where
  "checkStateTimeout now s =
     (if currentState s \<noteq> IDLE \<and> timeElapsed now (eventStartTime s) stateTimeout
      then s\<lparr>currentState := IDLE\<rparr> else s)"

section \<open>Command callback\<close>

text \<open>
  The payload bytes are collected into a \<open>String\<close> and trimmed.  \<open>trim\<close> follows the
  Arduino \<open>String::trim\<close>: it drops the characters for which \<open>isspace\<close> holds (space
  and the control characters 9 to 13) from both ends.
\<close>

definition isspace :: "char \<Rightarrow> bool" where
  "isspace c = (let n = (of_char c :: nat) in n = 32 \<or> (9 \<le> n \<and> n \<le> 13))"

definition trim :: "string \<Rightarrow> string" where
  "trim m = rev (dropWhile isspace (rev (dropWhile isspace m)))"

text \<open>The \<open>if\<close> chain of \<open>callback\<close> on the trimmed message; \<open>now'\<close> is the reading
  assigned to \<open>eventStartTime\<close>, taken after \<open>powerOnCafeteria\<close> has pulsed the relay.\<close>

definition dispatch :: "string \<Rightarrow> u32 \<Rightarrow> sys \<Rightarrow> sys" where
  "dispatch message now' s =
     (if message = ''on'' \<and> currentState s = IDLE then
        s\<lparr>eventStartTime := now', currentState := WAITING\<rparr>
      else if message = ''on'' then s
      else if message = ''reset'' then
        initRTCData (s\<lparr>currentState := IDLE, coffeePouredCount := 0\<rparr>)
      else if message = ''restart'' then
        s\<lparr>pendingRestartReason := RESTART_USER, forceRestart := True\<rparr>
      else if message = ''ping'' then s
      else s)"

definition callback :: "string \<Rightarrow> string \<Rightarrow> u32 \<Rightarrow> u32 \<Rightarrow> sys \<Rightarrow> sys" where
  "callback topic payload now now' s =
     dispatch (trim payload) now' (s\<lparr>lastMQTTMessage := now\<rparr>)"

section \<open>Memory check\<close>

datatype fault = DivideByZero

text \<open>
  \<open>freeHeap\<close> is \<open>ESP.getFreeHeap()\<close> and \<open>maxFreeBlockSize\<close> is
  \<open>ESP.getMaxFreeBlockSize()\<close>.  The product \<open>maxFreeBlockSize * 100\<close> is computed in
  \<open>int\<close> and cannot overflow; the quotient and the difference are unsigned 32-bit, and
  the result is cut to \<open>uint8_t\<close>.  An integer division by zero raises an exception on
  the device; it is the \<open>Inl\<close> result here.
\<close>

definition checkMemory :: "u32 \<Rightarrow> u32 \<Rightarrow> u32 \<Rightarrow> u16 \<Rightarrow> sys \<Rightarrow> fault + sys" where
  "checkMemory now now' freeHeap maxFreeBlockSize s =
     (if timeElapsed now (lastMemoryCheck s) memoryCheckInterval then
        (let s1 = s\<lparr>lastMemoryCheck := now'\<rparr> in
         if freeHeap = 0 then Inl DivideByZero
         else
           (let heapFragmentation =
                  (ucast (100 - (ucast maxFreeBlockSize * 100) div freeHeap) :: u8);
                s2 = (if freeHeap < minFreeHeap
                      then s1\<lparr>pendingRestartReason := RESTART_MEMORY, forceRestart := True\<rparr>
                      else s1);
                s3 = (if heapFragmentation > 85
                      then s2\<lparr>pendingRestartReason := RESTART_MEMORY, forceRestart := True\<rparr>
                      else s2)
            in Inr s3))
      else Inr s)"

section \<open>Sequences of store operations\<close>

text \<open>The three operations that write the retention record once it exists, and a cup
  being poured in between.\<close>

datatype store_op =
    OpRecordRestart RestartReason
  | OpCheckpoint u32 u32
  | OpReset string u32 u32
  | OpPour

fun store_step :: "store_op \<Rightarrow> sys \<Rightarrow> sys" where
  "store_step (OpRecordRestart reason) s = recordRestart reason s"
| "store_step (OpCheckpoint now now') s = rtc_checkpoint now now' s"
| "store_step (OpReset topic now now') s = callback topic ''reset'' now now' s"
| "store_step OpPour s = pourCoffee s"

fun store_run :: "store_op list \<Rightarrow> sys \<Rightarrow> sys" where
  "store_run [] s = s"
| "store_run (op # ops) s = store_run ops (store_step op s)"







text \<open>A state for the examples: one day after boot, a status report and a broker
  message just seen, a few reconnects on each link.\<close>

definition quiet_day :: sys where
  "quiet_day = (globals_at_reset [])\<lparr> lastSuccessfulMetrics := 86400000,
     lastMQTTMessage := 86400000, wifiReconnectCount := 3, mqttReconnectCount := 7 \<rparr>"

section \<open>Clock: the elapsed-time predicate\<close>

lemma unat_wrapped_diff:
  "unat (a - b :: u32) = (unat a + 2 ^ 32 - unat b) mod 2 ^ 32"
proof -
  have a: "unat a < 2 ^ 32"
    using unsigned_less [of a] by simp
  show ?thesis
  proof (cases "unat b \<le> unat a")
    case True
    then have e: "unat a + 2 ^ 32 - unat b = (unat a - unat b) + 2 ^ 32" by simp
    have l: "unat a - unat b < 2 ^ 32" using a by simp
    have "(unat a + 2 ^ 32 - unat b) mod 2 ^ 32 = unat a - unat b"
      unfolding e using l by simp
    then show ?thesis using True by (simp add: unat_sub_if_size)
  next
    case False
    then have "unat a + 2 ^ 32 - unat b < 2 ^ 32" by simp
    then show ?thesis using False by (simp add: unat_sub_if_size word_size)
  qed
qed

lemma timeElapsed_no_wrap:
  "since \<le> now \<Longrightarrow>
     timeElapsed now since interval = (unat interval \<le> unat now - unat since)"
  by (auto simp add: timeElapsed_def word_le_nat_alt word_less_nat_alt unat_sub_if_size)

text \<open>
  Claim C2, as stated: \<open>timeElapsed\<close> is true iff the wrapped difference
  \<open>(now - since) mod 2^32\<close> is at least the interval, and it is always true when
  \<open>now < since\<close>.  The two halves disagree: with \<open>since = 0xFFFFFFFF\<close>, \<open>now = 0\<close> and an
  interval of 10 ms the wrapped difference is 1, below the interval, and the function
  returns true because \<open>now < since\<close>.
\<close>

theorem timeElapsed_iff_counterexample:
  "timeElapsed 0 0xFFFFFFFF 10 \<and> \<not> (10 \<le> (0 - 0xFFFFFFFF :: u32))"
  by (simp add: timeElapsed_def)

text \<open>
  Claim C2, amended: over unsigned 32-bit arithmetic \<open>timeElapsed\<close> is true iff the
  wrapped difference \<open>(now - since) mod 2^32\<close> is at least the interval or
  \<open>now < since\<close>; so it is always true when \<open>now < since\<close>, and when \<open>since \<le> now\<close> it is
  true iff the plain difference is at least the interval.
\<close>

theorem timeElapsed_wrapping:
  "(timeElapsed now since interval \<longleftrightarrow>
      (unat interval \<le> (unat now + 2 ^ 32 - unat since) mod 2 ^ 32 \<or> unat now < unat since))
   \<and> (now < since \<longrightarrow> timeElapsed now since interval)
   \<and> (since \<le> now \<longrightarrow>
        (timeElapsed now since interval \<longleftrightarrow> unat interval \<le> unat now - unat since))"
proof -
  have 1: "timeElapsed now since interval \<longleftrightarrow>
      (unat interval \<le> (unat now + 2 ^ 32 - unat since) mod 2 ^ 32 \<or> unat now < unat since)"
    unfolding timeElapsed_def word_le_nat_alt word_less_nat_alt unat_wrapped_diff ..
  have 2: "now < since \<longrightarrow> timeElapsed now since interval"
    by (simp add: timeElapsed_def)
  have 3: "since \<le> now \<longrightarrow>
        (timeElapsed now since interval \<longleftrightarrow> unat interval \<le> unat now - unat since)"
    by (simp add: timeElapsed_no_wrap)
  from 1 2 3 show ?thesis by blast
qed

theorem timeElapsed_wrapping_witness:
  "((5::u32) < 0xFFFFFFF0 \<and> timeElapsed 5 0xFFFFFFF0 100)
   \<and> ((7::u32) \<le> 107 \<and> timeElapsed 107 7 100 \<and> \<not> timeElapsed 106 7 100)"
  using timeElapsed_wrapping [of 5 "0xFFFFFFF0" 100] timeElapsed_wrapping [of 107 7 100]
    timeElapsed_wrapping [of 106 7 100]
  by simp


section \<open>The checksum detects every changed byte\<close>

text \<open>
  One turn of the bit loop is linear over exclusive-or, and so is a whole byte; with a
  zero input bit the turn is injective.  A byte therefore maps distinct registers to
  distinct registers and, from one register, distinct bytes to distinct registers.
\<close>

lemma msb_test: "(x AND 0x80000000 \<noteq> 0) = bit (x :: u32) 31"
  using and_exp_eq_0_iff_not_bit [of x 31] by simp

lemma crc_bit_False: "crc_bit x False = (if bit x 31 then push_bit 1 x XOR 0x04c11db7 else push_bit 1 x)"
  by (simp add: crc_bit_def Let_def msb_test)

lemma crc_bit_True: "crc_bit x True = crc_bit x False XOR 0x04c11db7"
  by (simp add: crc_bit_def Let_def msb_test xor.assoc)

lemma dbl_xor: "(x XOR y) * 2 = x * 2 XOR y * (2::u32)"
  using push_bit_xor [of 1 x y] by (simp add: push_bit_eq_mult)

lemma crc_bit_xor: "crc_bit (x XOR y) b = crc_bit x False XOR crc_bit y b"
  by (cases b) (auto simp add: crc_bit_True crc_bit_False bit_xor_iff dbl_xor ac_simps)

lemma xor_right_cancel: "(a XOR c = b XOR c) = (a = (b::'a::len word))"
proof
  assume "a XOR c = b XOR c"
  then have "(a XOR c) XOR c = (b XOR c) XOR c" by simp
  then show "a = b" by (simp add: xor.assoc)
qed simp

lemma xor_eq_0: "a XOR b = 0 \<Longrightarrow> a = (b::'a::len word)"
  using xor_right_cancel [of a b b] by simp

lemma crc_bit_inj: "crc_bit x False = crc_bit y False \<Longrightarrow> x = y"
proof -
  assume eq: "crc_bit x False = crc_bit y False"
  have low: "bit (crc_bit z False) 0 = bit z 31" for z :: u32
    by (simp add: crc_bit_False bit_0 even_xor_iff)
  have b31: "bit x 31 = bit y 31" using eq low by metis
  have "x * 2 = y * 2"
    using eq b31 by (cases "bit x 31") (simp_all add: crc_bit_False xor_right_cancel)
  then have "push_bit 1 x = push_bit 1 y" by (simp add: push_bit_eq_mult)
  then have "bit (push_bit 1 x) (Suc n) = bit (push_bit 1 y) (Suc n)" for n by (simp only:)
  then have r: "n < 31 \<Longrightarrow> bit x n = bit y n" for n
    by (simp only: bit_push_bit_iff) (auto simp add: possible_bit_word)
  show "x = y"
  proof (rule bit_word_eqI)
    fix n assume "n < LENGTH(32)"
    then have "n < 31 \<or> n = 31" by auto
    then show "bit x n = bit y n" using r b31 by auto
  qed
qed

lemma loop_0: "crc_byte_loop crc c 0 = crc"
  by (subst crc_byte_loop.simps) simp

lemma loop_step: "i \<noteq> 0 \<Longrightarrow> crc_byte_loop crc c i = crc_byte_loop (crc_bit crc (ucast c AND i \<noteq> 0)) c (drop_bit 1 i)"
  by (subst crc_byte_loop.simps) (simp add: word_greater_zero_iff)

lemma mask_bit: "n < 8 \<Longrightarrow> ((ucast (c :: u8) :: u32) AND 2 ^ n \<noteq> 0) = bit c n"
  using and_exp_eq_0_iff_not_bit [of "ucast c :: u32" n] by (simp add: bit_ucast_iff)

lemma unroll: "crc_byte_loop crc c 0x80 =
  crc_bit (crc_bit (crc_bit (crc_bit (crc_bit (crc_bit (crc_bit (crc_bit crc (bit c 7)) (bit c 6)) (bit c 5)) (bit c 4)) (bit c 3)) (bit c 2)) (bit c 1)) (bit c 0)"
  using mask_bit [of 7 c] mask_bit [of 6 c] mask_bit [of 5 c] mask_bit [of 4 c]
    mask_bit [of 3 c] mask_bit [of 2 c] mask_bit [of 1 c] mask_bit [of 0 c]
  by (simp add: loop_step loop_0 drop_bit_eq_div)


lemma crc_bit_diff: "crc_bit x b XOR crc_bit y b' = crc_bit (x XOR y) (b \<noteq> b')"
  by (cases b; cases b') (simp_all add: crc_bit_True crc_bit_xor ac_simps xor.left_commute)

lemma byte_diff:
  "crc_byte_loop x c 0x80 XOR crc_byte_loop y c' 0x80 = crc_byte_loop (x XOR y) (c XOR c') 0x80"
  by (simp only: unroll crc_bit_diff bit_xor_iff)

lemma byte_zero: "crc_byte_loop 0 0 0x80 = 0"
  by (simp add: unroll crc_bit_False)

lemma byte_kernel_crc: "crc_byte_loop x 0 0x80 = 0 \<Longrightarrow> x = 0"
proof -
  have z: "crc_bit 0 False = 0" by (simp add: crc_bit_False)
  have k: "crc_bit y False = 0 \<Longrightarrow> y = 0" for y
    using crc_bit_inj [of y 0] z by simp
  assume "crc_byte_loop x 0 0x80 = 0"
  then show ?thesis by (simp add: unroll) (blast dest: k)
qed

lemma byte_kernel_data: "crc_byte_loop 0 d 0x80 = 0 \<Longrightarrow> d = 0"
proof -
  assume a: "crc_byte_loop 0 d 0x80 = 0"
  have "\<not> bit d 7 \<and> \<not> bit d 6 \<and> \<not> bit d 5 \<and> \<not> bit d 4 \<and> \<not> bit d 3 \<and> \<not> bit d 2 \<and> \<not> bit d 1 \<and> \<not> bit d 0"
    using a unfolding unroll
    by (cases "bit d 7"; cases "bit d 6"; cases "bit d 5"; cases "bit d 4";
        cases "bit d 3"; cases "bit d 2"; cases "bit d 1"; cases "bit d 0")
       (simp_all add: crc_bit_def)
  then have "\<not> bit d n" if "n < 8" for n
  proof -
    from that have "n \<in> {0, 1, 2, 3, 4, 5, 6, 7}" by auto
    with \<open>\<not> bit d 7 \<and> _\<close> show ?thesis by auto
  qed
  then show "d = 0" by (intro bit_word_eqI) simp
qed


lemma byte_inj_crc: "crc_byte_loop x c 0x80 = crc_byte_loop y c 0x80 \<Longrightarrow> x = y"
proof -
  assume "crc_byte_loop x c 0x80 = crc_byte_loop y c 0x80"
  then have "crc_byte_loop x c 0x80 XOR crc_byte_loop y c 0x80 = 0" by simp
  then have "crc_byte_loop (x XOR y) 0 0x80 = 0" by (simp add: byte_diff)
  then have "x XOR y = 0" by (rule byte_kernel_crc)
  then show "x = y" by (rule xor_eq_0)
qed

lemma byte_inj_data: "crc_byte_loop x c 0x80 = crc_byte_loop x c' 0x80 \<Longrightarrow> c = c'"
proof -
  assume "crc_byte_loop x c 0x80 = crc_byte_loop x c' 0x80"
  then have "crc_byte_loop x c 0x80 XOR crc_byte_loop x c' 0x80 = 0" by simp
  then have "crc_byte_loop 0 (c XOR c') 0x80 = 0" by (simp add: byte_diff)
  then have "c XOR c' = 0" by (rule byte_kernel_data)
  then show "c = c'" by (rule xor_eq_0)
qed

lemma crc_bytes_inj_crc: "crc_bytes x data = crc_bytes y data \<Longrightarrow> x = y"
  by (induction data arbitrary: x y) (auto dest: byte_inj_crc)

lemma crc_bytes_flip:
  "i < length data \<Longrightarrow> b \<noteq> data ! i \<Longrightarrow> crc_bytes x (data[i := b]) \<noteq> crc_bytes x data"
proof (induction data arbitrary: x i)
  case Nil
  then show ?case by simp
next
  case (Cons c data)
  show ?case
  proof (cases i)
    case 0
    with Cons.prems have "b \<noteq> c" by simp
    then have "crc_byte_loop x b 0x80 \<noteq> crc_byte_loop x c 0x80"
      using byte_inj_data by blast
    then show ?thesis using 0 crc_bytes_inj_crc by auto
  next
    case (Suc j)
    with Cons.prems have "j < length data" "b \<noteq> data ! j" by simp_all
    then show ?thesis using Suc Cons.IH by simp
  qed
qed

lemma calculateCRC32_flip:
  "i < length data \<Longrightarrow> b \<noteq> data ! i \<Longrightarrow> calculateCRC32 (data[i := b]) \<noteq> calculateCRC32 data"
  by (simp add: calculateCRC32_def crc_bytes_flip)

section \<open>The memory image determines the record\<close>

lemma bit_u8_high: "8 \<le> n \<Longrightarrow> \<not> bit (a :: u8) n"
  using bit_imp_le_length [of a n] by auto

lemma bytes_word_word_bytes:
  "bytes_word (ucast w) (ucast (drop_bit 8 w)) (ucast (drop_bit 16 w)) (ucast (drop_bit 24 w)) = w"
proof (rule bit_word_eqI)
  fix n assume "n < LENGTH(32)"
  then consider "n < 8" | "8 \<le> n" "n < 16" | "16 \<le> n" "n < 24" | "24 \<le> n" "n < 32"
    by fastforce
  then show "bit (bytes_word (ucast w) (ucast (drop_bit 8 w)) (ucast (drop_bit 16 w))
      (ucast (drop_bit 24 w))) n = bit w n"
  proof cases
    case 1
    then show ?thesis by (auto simp add: bytes_word_def bit_simps)
  next
    case 2
    then have "8 + (n - 8) = n" by simp
    with 2 show ?thesis by (auto simp add: bytes_word_def bit_simps)
  next
    case 3
    then have "16 + (n - 16) = n" "\<not> n < 8" "\<not> n - 8 < 8" by simp_all
    with 3 show ?thesis by (auto simp add: bytes_word_def bit_simps)
  next
    case 4
    then have "24 + (n - 24) = n" "\<not> n < 8" "\<not> n - 8 < 8" "\<not> n - 16 < 8" "n - 24 < 8"
      by simp_all
    with 4 show ?thesis by (auto simp add: bytes_word_def bit_simps)
  qed
qed

lemma word_bytes_bytes_word: "word_bytes (bytes_word a b c d) = [a, b, c, d]"
proof -
  have 0: "ucast (bytes_word a b c d) = a"
    unfolding bytes_word_def by (rule bit_word_eqI) (auto simp add: bit_simps bit_u8_high)
  have 1: "ucast (drop_bit 8 (bytes_word a b c d)) = b"
    unfolding bytes_word_def by (rule bit_word_eqI) (auto simp add: bit_simps bit_u8_high)
  have 2: "ucast (drop_bit 16 (bytes_word a b c d)) = c"
    unfolding bytes_word_def by (rule bit_word_eqI) (auto simp add: bit_simps bit_u8_high)
  have 3: "ucast (drop_bit 24 (bytes_word a b c d)) = d"
    unfolding bytes_word_def by (rule bit_word_eqI) (auto simp add: bit_simps bit_u8_high)
  show ?thesis by (simp only: word_bytes_def 0 1 2 3)
qed

lemma word_bytes_inj: "word_bytes v = word_bytes w \<Longrightarrow> v = w"
proof -
  assume a: "word_bytes v = word_bytes w"
  have "v = bytes_word (ucast v) (ucast (drop_bit 8 v)) (ucast (drop_bit 16 v)) (ucast (drop_bit 24 v))"
    by (simp only: bytes_word_word_bytes)
  also have "\<dots> = bytes_word (ucast w) (ucast (drop_bit 8 w)) (ucast (drop_bit 16 w)) (ucast (drop_bit 24 w))"
    using a by (simp add: word_bytes_def)
  also have "\<dots> = w" by (simp only: bytes_word_word_bytes)
  finally show ?thesis .
qed

lemma concat_bytes_words:
  "length bs mod 4 = 0 \<Longrightarrow> concat (map word_bytes (bytes_words bs)) = bs"
proof (induction bs rule: bytes_words.induct)
  case (1 b0 b1 b2 b3 bs)
  then have "length bs mod 4 = 0" by simp
  with 1 show ?case by (simp add: word_bytes_bytes_word)
qed (simp_all)

lemma length_bytes_words: "length (bytes_words bs) = length bs div 4"
  by (induction bs rule: bytes_words.induct) simp_all

lemma rtc_words_words_rtc: "length ws = 11 \<Longrightarrow> rtc_words (words_rtc ws) = ws"
  by (auto simp add: rtc_words_def words_rtc_def list_eq_iff_nth_eq less_Suc_eq numeral_eq_Suc nth_Cons')

lemma rtc_bytes_inverse:
  assumes "length bs = 44"
  shows "rtc_bytes (words_rtc (bytes_words bs)) = bs"
proof -
  have "length (bytes_words bs) = 11" using assms by (simp add: length_bytes_words)
  then have "rtc_words (words_rtc (bytes_words bs)) = bytes_words bs"
    by (rule rtc_words_words_rtc)
  moreover have "length bs mod 4 = 0" using assms by simp
  ultimately show ?thesis by (simp add: rtc_bytes_def concat_bytes_words)
qed

lemma length_word_bytes: "length (word_bytes w) = 4"
  by (simp add: word_bytes_def)

lemma length_rtc_bytes: "length (rtc_bytes r) = 44"
  by (simp add: rtc_bytes_def rtc_words_def length_word_bytes)

lemma take_rtc_bytes: "take 4 (rtc_bytes r) = word_bytes (crc32 r)"
  by (simp add: rtc_bytes_def rtc_words_def length_word_bytes)

lemma drop_rtc_bytes_crc32: "drop 4 (rtc_bytes (r\<lparr>crc32 := c\<rparr>)) = drop 4 (rtc_bytes r)"
  by (simp add: rtc_bytes_def rtc_words_def length_word_bytes)

lemma words_rtc_inverse: "words_rtc (bytes_words (rtc_bytes r)) = r"
  by (simp add: rtc_bytes_def rtc_words_def word_bytes_def bytes_word_word_bytes words_rtc_def)

lemma rtcData_writeRTCData:
  "rtcData (writeRTCData s) =
     (rtcData s)\<lparr>crc32 := calculateCRC32 (drop 4 (rtc_bytes (rtcData s)))\<rparr>"
  by (simp add: writeRTCData_def Let_def)

lemma rtcMem_writeRTCData: "rtcMem (writeRTCData s) = rtc_bytes (rtcData (writeRTCData s))"
  by (simp add: writeRTCData_def Let_def)

lemma crc32_writeRTCData:
  "crc32 (rtcData (writeRTCData s)) = calculateCRC32 (drop 4 (rtcMem (writeRTCData s)))"
  by (simp add: rtcMem_writeRTCData) (simp add: rtcData_writeRTCData drop_rtc_bytes_crc32)

lemma crc32_of_block:
  assumes "length bs = 44"
  shows "word_bytes (crc32 (words_rtc (bytes_words bs))) = take 4 bs"
  using take_rtc_bytes [of "words_rtc (bytes_words bs)"] assms
  by (simp add: rtc_bytes_inverse)


lemma readRTCData_of_block:
  assumes "length bs = 44" and "rtcMem s' = bs"
  shows "readRTCData s' =
     (calculateCRC32 (drop 4 bs) = crc32 (words_rtc (bytes_words bs)),
      s'\<lparr>rtcData := words_rtc (bytes_words bs)\<rparr>)"
  using assms by (simp add: readRTCData_def rtcUserMemoryRead_def Let_def rtc_bytes_inverse)

text \<open>Whatever state the program is in when it reads, for instance the variables at
  reset after a restart, a block that \<open>writeRTCData\<close> wrote is accepted and loaded.\<close>

lemma readRTCData_written:
  assumes "rtcMem s' = rtcMem (writeRTCData s)"
  shows "readRTCData s' = (True, s'\<lparr>rtcData := rtcData (writeRTCData s)\<rparr>)"
proof -
  let ?B = "rtcMem (writeRTCData s)"
  have len: "length ?B = 44" by (simp add: rtcMem_writeRTCData length_rtc_bytes)
  have rt: "words_rtc (bytes_words ?B) = rtcData (writeRTCData s)"
    by (simp add: rtcMem_writeRTCData words_rtc_inverse)
  have "calculateCRC32 (drop 4 ?B) = crc32 (rtcData (writeRTCData s))"
    by (simp only: crc32_writeRTCData)
  then show ?thesis
    using readRTCData_of_block [OF len assms] by (simp add: rt)
qed

text \<open>Any single changed byte of such a block makes the read fail, again whatever the
  rest of the state is.\<close>

lemma readRTCData_corrupted:
  assumes i: "i < 44" and b: "b \<noteq> rtcMem (writeRTCData s) ! i"
    and m: "rtcMem s' = (rtcMem (writeRTCData s))[i := b]"
  shows "\<not> fst (readRTCData s')"
proof -
  define w where "w = writeRTCData s"
  define B where "B = rtcMem w"
  let ?B' = "B[i := b]"
  have B: "B = rtc_bytes (rtcData w)" by (simp add: B_def w_def rtcMem_writeRTCData)
  have lenB: "length B = 44" by (simp add: B length_rtc_bytes)
  have crc: "crc32 (rtcData w) = calculateCRC32 (drop 4 B)"
    by (simp add: B_def w_def crc32_writeRTCData)
  have b': "b \<noteq> B ! i" using b by (simp add: B_def w_def)
  have m': "rtcMem s' = ?B'" using m by (simp add: B_def w_def)
  have len': "length ?B' = 44" using lenB by simp
  have rd: "fst (readRTCData s') =
      (calculateCRC32 (drop 4 ?B') = crc32 (words_rtc (bytes_words ?B')))"
    using readRTCData_of_block [OF len' m'] by simp
  have st': "word_bytes (crc32 (words_rtc (bytes_words ?B'))) = take 4 ?B'"
    by (rule crc32_of_block [OF len'])
  have st: "word_bytes (crc32 (rtcData w)) = take 4 B"
    by (simp add: B take_rtc_bytes)
  show ?thesis
  proof (cases "i < 4")
    case True
    then have "drop 4 ?B' = drop 4 B" by simp
    then have c: "calculateCRC32 (drop 4 ?B') = crc32 (rtcData w)" by (simp add: crc)
    have "take 4 ?B' ! i = b" using True lenB by simp
    moreover have "take 4 B ! i = B ! i" using True by simp
    ultimately have "take 4 ?B' \<noteq> take 4 B" using b' by metis
    then have "crc32 (words_rtc (bytes_words ?B')) \<noteq> crc32 (rtcData w)"
      using st st' by metis
    then show ?thesis using rd c by simp
  next
    case False
    then have "take 4 ?B' = take 4 B" by simp
    then have "word_bytes (crc32 (words_rtc (bytes_words ?B'))) = word_bytes (crc32 (rtcData w))"
      using st st' by simp
    then have e: "crc32 (words_rtc (bytes_words ?B')) = calculateCRC32 (drop 4 B)"
      using word_bytes_inj crc by metis
    have d: "drop 4 ?B' = (drop 4 B)[i - 4 := b]"
      using False by (simp add: drop_update_swap)
    have "i - 4 < length (drop 4 B)" using i False lenB by simp
    moreover have "b \<noteq> drop 4 B ! (i - 4)" using b' False lenB i by simp
    ultimately have "calculateCRC32 ((drop 4 B)[i - 4 := b]) \<noteq> calculateCRC32 (drop 4 B)"
      by (rule calculateCRC32_flip)
    then show ?thesis using rd e d by simp
  qed
qed

text \<open>
  Claim C7: \<open>writeRTCData\<close> recomputes the CRC32 over every byte after the checksum
  field, stores it in the record and writes the record's image to the retention
  memory.  Reading the same bytes back validates and loads the record written, in the
  state that wrote it and in any other state whose retention memory holds that block
  (the variables at reset after a restart, as in \<open>setup\<close>); and for every block that
  \<open>writeRTCData\<close> has persisted, changing any single one of its 44 bytes to a different
  value makes \<open>readRTCData\<close> return false, again in any reading state.
\<close>

theorem checksum_round_trip:
  "fst (readRTCData (writeRTCData s))
   \<and> snd (readRTCData (writeRTCData s)) = writeRTCData s
   \<and> (\<forall>i b. i < 44 \<and> b \<noteq> rtcMem (writeRTCData s) ! i \<longrightarrow>
         \<not> fst (readRTCData ((writeRTCData s)\<lparr>rtcMem := (rtcMem (writeRTCData s))[i := b]\<rparr>)))
   \<and> rtcData (writeRTCData s)
        = (rtcData s)\<lparr>crc32 := calculateCRC32 (drop 4 (rtc_bytes (rtcData s)))\<rparr>
   \<and> rtcMem (writeRTCData s) = rtc_bytes (rtcData (writeRTCData s))
   \<and> (\<forall>s'. rtcMem s' = rtcMem (writeRTCData s) \<longrightarrow>
         readRTCData s' = (True, s'\<lparr>rtcData := rtcData (writeRTCData s)\<rparr>))
   \<and> (\<forall>s' i b. i < 44 \<and> b \<noteq> rtcMem (writeRTCData s) ! i
           \<and> rtcMem s' = (rtcMem (writeRTCData s))[i := b] \<longrightarrow>
         \<not> fst (readRTCData s'))"
proof -
  let ?w = "writeRTCData s"
  have r: "readRTCData ?w = (True, ?w\<lparr>rtcData := rtcData ?w\<rparr>)"
    by (rule readRTCData_written) simp
  have 1: "fst (readRTCData ?w)" and 2: "snd (readRTCData ?w) = ?w"
    by (simp_all add: r)
  have 3: "\<not> fst (readRTCData (?w\<lparr>rtcMem := (rtcMem ?w)[i := b]\<rparr>))"
    if "i < 44" and "b \<noteq> rtcMem ?w ! i" for i b
    using that by (rule readRTCData_corrupted) simp
  have 4: "rtcData ?w = (rtcData s)\<lparr>crc32 := calculateCRC32 (drop 4 (rtc_bytes (rtcData s)))\<rparr>"
    by (rule rtcData_writeRTCData)
  have 5: "rtcMem ?w = rtc_bytes (rtcData ?w)"
    by (rule rtcMem_writeRTCData)
  have 6: "readRTCData s' = (True, s'\<lparr>rtcData := rtcData ?w\<rparr>)"
    if "rtcMem s' = rtcMem ?w" for s'
    using that by (rule readRTCData_written)
  have 7: "\<not> fst (readRTCData s')"
    if "i < 44" and "b \<noteq> rtcMem ?w ! i" and "rtcMem s' = (rtcMem ?w)[i := b]" for s' i b
    using that by (rule readRTCData_corrupted)
  from 1 2 3 4 5 6 7 show ?thesis by blast
qed

theorem checksum_round_trip_witness:
  "((0::nat) < 44
      \<and> rtcMem (writeRTCData quiet_day) ! 0 + 1 \<noteq> rtcMem (writeRTCData quiet_day) ! 0
      \<and> \<not> fst (readRTCData (globals_at_reset
            ((rtcMem (writeRTCData quiet_day))[0 := rtcMem (writeRTCData quiet_day) ! 0 + 1]))))
   \<and> ((5::nat) < 44
      \<and> (1::u8) \<noteq> rtcMem (writeRTCData quiet_day) ! 5
      \<and> \<not> fst (readRTCData (globals_at_reset ((rtcMem (writeRTCData quiet_day))[5 := 1])))
      \<and> \<not> fst (readRTCData ((writeRTCData quiet_day)
            \<lparr>rtcMem := (rtcMem (writeRTCData quiet_day))[5 := 1]\<rparr>)))
   \<and> rtcMem (globals_at_reset (rtcMem (writeRTCData quiet_day))) = rtcMem (writeRTCData quiet_day)
   \<and> readRTCData (globals_at_reset (rtcMem (writeRTCData quiet_day)))
       = (True, (globals_at_reset (rtcMem (writeRTCData quiet_day)))
            \<lparr>rtcData := rtcData (writeRTCData quiet_day)\<rparr>)"
proof -
  let ?w = "writeRTCData quiet_day"
  have five: "rtc_bytes r ! 5 = ucast (drop_bit 8 (totalRestarts r))" for r
    by (simp add: rtc_bytes_def rtc_words_def word_bytes_def)
  have "totalRestarts (rtcData ?w) = 0"
    by (simp add: rtcData_writeRTCData quiet_day_def globals_at_reset_def)
  then have h5: "(1::u8) \<noteq> rtcMem ?w ! 5"
    by (simp add: rtcMem_writeRTCData five)
  have h0: "rtcMem ?w ! 0 + 1 \<noteq> rtcMem ?w ! 0" by simp
  have mem: "rtcMem (globals_at_reset m) = m" for m
    by (simp add: globals_at_reset_def)
  note flip = checksum_round_trip [of quiet_day, THEN conjunct2, THEN conjunct2,
      THEN conjunct2, THEN conjunct2, THEN conjunct2, THEN conjunct2, rule_format]
  note flip_same = checksum_round_trip [of quiet_day, THEN conjunct2, THEN conjunct2,
      THEN conjunct1, rule_format]
  note load = checksum_round_trip [of quiet_day, THEN conjunct2, THEN conjunct2,
      THEN conjunct2, THEN conjunct2, THEN conjunct2, THEN conjunct1, rule_format]
  have a: "\<not> fst (readRTCData (globals_at_reset ((rtcMem ?w)[0 := rtcMem ?w ! 0 + 1])))"
    using flip [of 0 "rtcMem ?w ! 0 + 1"] h0 by (simp add: mem)
  have b: "\<not> fst (readRTCData (globals_at_reset ((rtcMem ?w)[5 := 1])))"
    using flip [of 5 1] h5 by (simp add: mem)
  have c: "\<not> fst (readRTCData (?w\<lparr>rtcMem := (rtcMem ?w)[5 := 1]\<rparr>))"
    using flip_same [of 5 1] h5 by simp
  have d: "readRTCData (globals_at_reset (rtcMem ?w))
       = (True, (globals_at_reset (rtcMem ?w))\<lparr>rtcData := rtcData ?w\<rparr>)"
    using load [of "globals_at_reset (rtcMem ?w)"] by (simp add: mem)
  from a b c d h0 h5 mem show ?thesis by simp
qed

section \<open>Persistent store: what the operations write\<close>

lemma writeRTCData_unfold:
  "writeRTCData s = s\<lparr>rtcData := (rtcData s)\<lparr>crc32 := calculateCRC32 (drop 4 (rtc_bytes (rtcData s)))\<rparr>,
      rtcMem := rtc_bytes ((rtcData s)\<lparr>crc32 := calculateCRC32 (drop 4 (rtc_bytes (rtcData s)))\<rparr>)\<rparr>"
  by (simp add: writeRTCData_def Let_def)

lemma recordRestart_total:
  "coffeePouredTotal (rtcData (recordRestart reason s)) = coffeePouredCount s"
  by (cases reason) (simp_all add: recordRestart_def Let_def writeRTCData_unfold)

text \<open>
  Claim C1: \<open>recordRestart\<close> folds the session brew count into the persisted all-time
  count, new total = old total + session count.  The code assigns instead of adding
  (\<open>rtcData.coffeePouredTotal = coffeePouredCount\<close>), while the ten-minute block of
  \<open>loop\<close> adds (\<open>+=\<close>) and the status report publishes the sum of the two as the
  all-time total.  In every state the total written is the session count alone.  On a
  run from a fresh record: two cups, a checkpoint
  (persisted total 2, session count back to 0), one more cup, then a restart recorded
  for the user.  The persisted total is then 1, not 3: the two cups saved by the
  checkpoint are gone.
\<close>

theorem recordRestart_overwrites_total:
  "coffeePouredTotal (rtcData (recordRestart reason s)) = coffeePouredCount s
   \<and> coffeePouredTotal (rtcData (store_run [OpPour, OpPour, OpCheckpoint 600000 600000]
       (initRTCData (globals_at_reset [])))) = 2
   \<and> coffeePouredCount (store_run [OpPour, OpPour, OpCheckpoint 600000 600000, OpPour]
       (initRTCData (globals_at_reset []))) = 1
   \<and> coffeePouredTotal (rtcData (store_run
       [OpPour, OpPour, OpCheckpoint 600000 600000, OpPour, OpRecordRestart RESTART_USER]
       (initRTCData (globals_at_reset [])))) = 1"
  by (simp add: recordRestart_total)
     (simp add: recordRestart_def rtc_checkpoint_def pourCoffee_def pourCoffee_begin_def
      pourCoffee_finish_def initRTCData_def globals_at_reset_def timeElapsed_def Let_def
      writeRTCData_unfold)

section \<open>Restart counters\<close>
















section \<open>The restart request\<close>











section \<open>Primary-link escalation\<close>

text \<open>
  Claim C5: the restart request with reason \<open>RESTART_WIFI\<close> is raised after exactly five
  consecutive failed connection attempts, not after fewer.  A failed attempt is counted
  twice, once at the end of \<open>setupWiFi\<close> and once more in \<open>checkWiFiConnection\<close>, so the
  counter reads 2, 4, 6 and the threshold of 5 is passed at the third attempt.  From the
  state at reset, with the link down at 30, 60 and 90 seconds: no request after the
  second attempt, a request after the third, three attempts made.
\<close>

theorem wifi_restart_after_three_failures:
  "\<not> forceRestart (checkWiFiConnection 60000 60000 True False False
        (checkWiFiConnection 30000 30000 True False False (globals_at_reset [])))
   \<and> consecutiveFailures (checkWiFiConnection 60000 60000 True False False
        (checkWiFiConnection 30000 30000 True False False (globals_at_reset []))) = 4
   \<and> forceRestart (checkWiFiConnection 90000 90000 True False False
        (checkWiFiConnection 60000 60000 True False False
          (checkWiFiConnection 30000 30000 True False False (globals_at_reset []))))
   \<and> pendingRestartReason (checkWiFiConnection 90000 90000 True False False
        (checkWiFiConnection 60000 60000 True False False
          (checkWiFiConnection 30000 30000 True False False (globals_at_reset []))))
      = RESTART_WIFI
   \<and> wifiReconnectCount (checkWiFiConnection 90000 90000 True False False
        (checkWiFiConnection 60000 60000 True False False
          (checkWiFiConnection 30000 30000 True False False (globals_at_reset [])))) = 3"
  by (simp add: checkWiFiConnection_def setupWiFi_def globals_at_reset_def timeElapsed_def
      wifiCheckInterval_def Let_def)

section \<open>Daily rollover of the reconnect counters\<close>

text \<open>
  Claim C6, as stated: when none of the four checks triggers and 24 hours have elapsed
  according to the elapsed-time predicate, both reconnect counters are zeroed and the
  rollover timestamp is reset.  The rollover test does not call \<open>timeElapsed\<close>: it is
  \<open>now - bootTime > 86400000\<close>.  Exactly 24 hours after boot the predicate holds and
  the counters stay as they were.
\<close>

theorem rollover_counterexample:
  "\<not> timeElapsed 86400000 (lastSuccessfulMetrics quiet_day) maxSilentTime
   \<and> \<not> timeElapsed 86400000 (lastMQTTMessage quiet_day) maxMQTTSilentTime
   \<and> \<not> 20 <s wifiReconnectCount quiet_day
   \<and> \<not> 50 <s mqttReconnectCount quiet_day
   \<and> timeElapsed 86400000 (bootTime quiet_day) 86400000
   \<and> wifiReconnectCount (performHealthCheck 86400000 86400000 86400000 quiet_day) = 3
   \<and> mqttReconnectCount (performHealthCheck 86400000 86400000 86400000 quiet_day) = 7
   \<and> bootTime (performHealthCheck 86400000 86400000 86400000 quiet_day) = 0"
  by (simp add: performHealthCheck_def quiet_day_def globals_at_reset_def timeElapsed_def
      maxSilentTime_def maxMQTTSilentTime_def)

text \<open>
  Claim C6, amended: on a health check where none of the four ordered checks triggers,
  both cumulative reconnect counters are zeroed and the rollover timestamp is set to the
  current time exactly when the wrapped difference \<open>now - bootTime\<close> is strictly greater
  than 86400000 ms (a comparison on the raw clock, not the elapsed-time predicate);
  otherwise nothing changes; in either case the retention record, and with it
  \<open>totalRestarts\<close>, is unaffected.
\<close>

theorem daily_rollover:
  assumes "\<not> timeElapsed t1 (lastSuccessfulMetrics s) maxSilentTime"
    and "\<not> timeElapsed t2 (lastMQTTMessage s) maxMQTTSilentTime"
    and "wifiReconnectCount s \<le>s 20"
    and "mqttReconnectCount s \<le>s 50"
  shows "(86400000 < now - bootTime s \<longrightarrow>
            performHealthCheck now t1 t2 s
              = s\<lparr>wifiReconnectCount := 0, mqttReconnectCount := 0, bootTime := now\<rparr>)
    \<and> (now - bootTime s \<le> 86400000 \<longrightarrow> performHealthCheck now t1 t2 s = s)
    \<and> rtcData (performHealthCheck now t1 t2 s) = rtcData s
    \<and> totalRestarts (rtcData (performHealthCheck now t1 t2 s)) = totalRestarts (rtcData s)"
  using assms by (auto simp add: performHealthCheck_def word_sle_eq word_sless_alt)

theorem daily_rollover_witness:
  "\<not> timeElapsed 86400100 (lastSuccessfulMetrics quiet_day) maxSilentTime
   \<and> \<not> timeElapsed 86400100 (lastMQTTMessage quiet_day) maxMQTTSilentTime
   \<and> wifiReconnectCount quiet_day \<le>s 20
   \<and> mqttReconnectCount quiet_day \<le>s 50
   \<and> 86400000 < 86400001 - bootTime quiet_day
   \<and> wifiReconnectCount (performHealthCheck 86400001 86400100 86400100 quiet_day) = 0
   \<and> mqttReconnectCount (performHealthCheck 86400001 86400100 86400100 quiet_day) = 0
   \<and> bootTime (performHealthCheck 86400001 86400100 86400100 quiet_day) = 86400001
   \<and> (86400000 - bootTime quiet_day \<le> 86400000
        \<and> performHealthCheck 86400000 86400100 86400100 quiet_day = quiet_day)"
proof -
  have a: "\<not> timeElapsed 86400100 (lastSuccessfulMetrics quiet_day) maxSilentTime"
    and b: "\<not> timeElapsed 86400100 (lastMQTTMessage quiet_day) maxMQTTSilentTime"
    and c: "wifiReconnectCount quiet_day \<le>s 20"
    and d: "mqttReconnectCount quiet_day \<le>s 50"
    and e: "86400000 < 86400001 - bootTime quiet_day"
    and f: "86400000 - bootTime quiet_day \<le> 86400000"
    by (simp_all add: quiet_day_def globals_at_reset_def timeElapsed_def
        maxSilentTime_def maxMQTTSilentTime_def)
  show ?thesis
    using daily_rollover [OF a b c d, of 86400001] daily_rollover [OF a b c d, of 86400000]
      a b c d e f
    by simp
qed

section \<open>Command callback\<close>

lemma lastMQTTMessage_initRTCData: "lastMQTTMessage (initRTCData s) = lastMQTTMessage s"
  by (simp add: initRTCData_def writeRTCData_unfold)

lemma lastMQTTMessage_dispatch: "lastMQTTMessage (dispatch m t s) = lastMQTTMessage s"
  by (simp add: dispatch_def lastMQTTMessage_initRTCData)

text \<open>
  Claim C9: every invocation of the command callback, for any topic and any payload,
  sets \<open>lastMQTTMessage\<close> to the current time before it dispatches on the payload, and
  no branch changes it afterwards; for a payload that is not one of the commands that
  act (\<open>on\<close>, \<open>reset\<close>, \<open>restart\<close>), so also for \<open>ping\<close> and for any unrecognised string,
  nothing else changes.
\<close>

theorem callback_records_activity:
  "lastMQTTMessage (callback topic payload now now' s) = now
   \<and> callback topic payload now now' s = dispatch (trim payload) now' (s\<lparr>lastMQTTMessage := now\<rparr>)
   \<and> (trim payload \<noteq> ''on'' \<and> trim payload \<noteq> ''reset'' \<and> trim payload \<noteq> ''restart'' \<longrightarrow>
        callback topic payload now now' s = s\<lparr>lastMQTTMessage := now\<rparr>)"
  by (simp add: callback_def lastMQTTMessage_dispatch) (simp add: dispatch_def)

theorem callback_records_activity_witness:
  "trim '' brew now '' \<noteq> ''on'' \<and> trim '' brew now '' \<noteq> ''reset''
   \<and> trim '' brew now '' \<noteq> ''restart''
   \<and> callback ''cafeteira/start'' '' brew now '' 1000 1700 (globals_at_reset [])
       = (globals_at_reset [])\<lparr>lastMQTTMessage := 1000\<rparr>
   \<and> trim ''ping'' \<noteq> ''on'' \<and> trim ''ping'' \<noteq> ''reset'' \<and> trim ''ping'' \<noteq> ''restart''
   \<and> callback ''cafeteira/start'' ''ping'' 1000 1700 (globals_at_reset [])
       = (globals_at_reset [])\<lparr>lastMQTTMessage := 1000\<rparr>"
proof -
  have t: "trim '' brew now '' = ''brew now''" "trim ''ping'' = ''ping''"
    by (simp_all add: trim_def isspace_def)
  have a: "callback ''cafeteira/start'' '' brew now '' 1000 1700 (globals_at_reset [])
       = (globals_at_reset [])\<lparr>lastMQTTMessage := 1000\<rparr>"
    using callback_records_activity [of "''cafeteira/start''" "'' brew now ''" 1000 1700
        "globals_at_reset []", THEN conjunct2, THEN conjunct2]
    by (simp add: t)
  have b: "callback ''cafeteira/start'' ''ping'' 1000 1700 (globals_at_reset [])
       = (globals_at_reset [])\<lparr>lastMQTTMessage := 1000\<rparr>"
    using callback_records_activity [of "''cafeteira/start''" "''ping''" 1000 1700
        "globals_at_reset []", THEN conjunct2, THEN conjunct2]
    by (simp add: t)
  show ?thesis unfolding a b by (simp add: t)
qed

section \<open>Memory check\<close>

text \<open>
  Claim C10: the fragmentation computation never divides by zero.  The division by
  \<open>freeHeap\<close> comes before the test \<open>freeHeap < minFreeHeap\<close> and nothing guards it: a
  reading of 0 from \<open>ESP.getFreeHeap()\<close> reaches it.
\<close>

theorem checkMemory_divides_by_zero:
  "checkMemory 300000 300000 0 0 (globals_at_reset []) = Inl DivideByZero"
  by (simp add: checkMemory_def globals_at_reset_def timeElapsed_def memoryCheckInterval_def)

section \<open>Brew cycle\<close>

text \<open>
  Claim C8, as stated: pouring happens after exactly 150000 ms have elapsed since the
  command and not before.  The wait is timed by \<open>timeElapsed\<close>, which also holds once
  the millisecond counter has wrapped below \<open>eventStartTime\<close>.  A start command whose
  \<open>eventStartTime\<close> is the last value before the wrap is followed one millisecond later
  by a pour.
\<close>

theorem heat_duration_counterexample:
  "currentState (callback ''cafeteira/start'' ''on'' 0xFFFFFD43 0xFFFFFFFF (globals_at_reset []))
     = WAITING
   \<and> eventStartTime (callback ''cafeteira/start'' ''on'' 0xFFFFFD43 0xFFFFFFFF (globals_at_reset []))
     = 0xFFFFFFFF
   \<and> (0 - 0xFFFFFFFF :: u32) = 1
   \<and> currentState (handleCoffeeProcess 0
        (callback ''cafeteira/start'' ''on'' 0xFFFFFD43 0xFFFFFFFF (globals_at_reset []))) = IDLE
   \<and> coffeePouredCount (handleCoffeeProcess 0
        (callback ''cafeteira/start'' ''on'' 0xFFFFFD43 0xFFFFFFFF (globals_at_reset []))) = 1"
  by (simp add: callback_def trim_def isspace_def dispatch_def globals_at_reset_def
      handleCoffeeProcess_def timeElapsed_def pourCoffee_def pourCoffee_begin_def
      pourCoffee_finish_def)

text \<open>
  Claim C8, amended: from \<open>IDLE\<close> a start command moves the machine to \<open>WAITING\<close> and
  records \<open>eventStartTime\<close> (read after the power-on pulse); in \<open>WAITING\<close>, the machine
  pours exactly when \<open>timeElapsed(eventStartTime, 150000)\<close> holds, which, as long as the
  millisecond counter has not wrapped below \<open>eventStartTime\<close>, is when at least 150000 ms
  have passed since then and not before; the pour passes through \<open>POURING\<close>, adds exactly
  1 to the session brew count (modulo \<open>2^32\<close>) and ends in \<open>IDLE\<close>.  There is one
  increment per completed cycle: outside \<open>WAITING\<close> the brew step changes nothing, a
  start command outside \<open>IDLE\<close> changes nothing but the activity timestamp, and after
  the pour further brew steps leave the count where it is.
\<close>

theorem brew_cycle:
  "(currentState s = IDLE \<and> trim payload = ''on'' \<longrightarrow>
       callback topic payload now now' s
         = s\<lparr>lastMQTTMessage := now, eventStartTime := now', currentState := WAITING\<rparr>)
   \<and> (currentState s = WAITING \<longrightarrow>
       handleCoffeeProcess t s
         = (if timeElapsed t (eventStartTime s) 150000
            then s\<lparr>coffeePouredCount := coffeePouredCount s + 1, currentState := IDLE\<rparr>
            else s))
   \<and> (currentState s = WAITING \<and> eventStartTime s \<le> t \<longrightarrow>
       (handleCoffeeProcess t s \<noteq> s) = (150000 \<le> unat t - unat (eventStartTime s)))
   \<and> currentState (pourCoffee_begin s) = POURING
   \<and> pourCoffee s = pourCoffee_finish (pourCoffee_begin s)
   \<and> currentState (pourCoffee s) = IDLE
   \<and> coffeePouredCount (pourCoffee s) = coffeePouredCount s + 1
   \<and> (currentState s \<noteq> WAITING \<longrightarrow> handleCoffeeProcess t s = s)
   \<and> (currentState s \<noteq> IDLE \<and> trim payload = ''on'' \<longrightarrow>
       callback topic payload now now' s = s\<lparr>lastMQTTMessage := now\<rparr>)
   \<and> (currentState s = IDLE \<and> trim payload = ''on''
         \<and> timeElapsed t now' 150000 \<longrightarrow>
       handleCoffeeProcess t' (handleCoffeeProcess t (callback topic payload now now' s))
         = s\<lparr>lastMQTTMessage := now, eventStartTime := now',
              coffeePouredCount := coffeePouredCount s + 1, currentState := IDLE\<rparr>)
   \<and> (currentState s = IDLE \<and> trim payload = ''on''
         \<and> \<not> timeElapsed t now' 150000 \<longrightarrow>
       handleCoffeeProcess t (callback topic payload now now' s)
         = s\<lparr>lastMQTTMessage := now, eventStartTime := now', currentState := WAITING\<rparr>)"
proof -
  have 1: "currentState s = IDLE \<and> trim payload = ''on'' \<longrightarrow>
       callback topic payload now now' s
         = s\<lparr>lastMQTTMessage := now, eventStartTime := now', currentState := WAITING\<rparr>"
    by (simp add: callback_def dispatch_def)
  have 2: "currentState s = WAITING \<longrightarrow>
       handleCoffeeProcess t s
         = (if timeElapsed t (eventStartTime s) 150000
            then s\<lparr>coffeePouredCount := coffeePouredCount s + 1, currentState := IDLE\<rparr>
            else s)"
    by (simp add: handleCoffeeProcess_def pourCoffee_def pourCoffee_begin_def
        pourCoffee_finish_def coffeeWaitTime_def)
  have ne: "s\<lparr>coffeePouredCount := coffeePouredCount s + 1, currentState := IDLE\<rparr> \<noteq> s"
    if "currentState s = WAITING"
  proof
    assume "s\<lparr>coffeePouredCount := coffeePouredCount s + 1, currentState := IDLE\<rparr> = s"
    then have "currentState (s\<lparr>coffeePouredCount := coffeePouredCount s + 1, currentState := IDLE\<rparr>)
        = currentState s" by (simp only:)
    with that show False by simp
  qed
  have 3: "currentState s = WAITING \<and> eventStartTime s \<le> t \<longrightarrow>
       (handleCoffeeProcess t s \<noteq> s) = (150000 \<le> unat t - unat (eventStartTime s))"
  proof (intro impI, elim conjE)
    assume w: "currentState s = WAITING" and le: "eventStartTime s \<le> t"
    have "timeElapsed t (eventStartTime s) 150000 = (unat (150000 :: u32) \<le> unat t - unat (eventStartTime s))"
      using le by (rule timeElapsed_no_wrap)
    then have "timeElapsed t (eventStartTime s) 150000 = (150000 \<le> unat t - unat (eventStartTime s))"
      by simp
    then show "(handleCoffeeProcess t s \<noteq> s) = (150000 \<le> unat t - unat (eventStartTime s))"
      using 2 w ne [OF w] by auto
  qed
  have 4: "currentState (pourCoffee_begin s) = POURING"
    "pourCoffee s = pourCoffee_finish (pourCoffee_begin s)"
    "currentState (pourCoffee s) = IDLE"
    "coffeePouredCount (pourCoffee s) = coffeePouredCount s + 1"
    by (simp_all add: pourCoffee_def pourCoffee_begin_def pourCoffee_finish_def)
  have 5: "currentState s \<noteq> WAITING \<longrightarrow> handleCoffeeProcess t s = s"
    by (simp add: handleCoffeeProcess_def)
  have 6: "currentState s \<noteq> IDLE \<and> trim payload = ''on'' \<longrightarrow>
       callback topic payload now now' s = s\<lparr>lastMQTTMessage := now\<rparr>"
    by (simp add: callback_def dispatch_def)
  have 7: "currentState s = IDLE \<and> trim payload = ''on''
         \<and> timeElapsed t now' 150000 \<longrightarrow>
       handleCoffeeProcess t' (handleCoffeeProcess t (callback topic payload now now' s))
         = s\<lparr>lastMQTTMessage := now, eventStartTime := now',
              coffeePouredCount := coffeePouredCount s + 1, currentState := IDLE\<rparr>"
    by (simp add: callback_def dispatch_def handleCoffeeProcess_def pourCoffee_def
        pourCoffee_begin_def pourCoffee_finish_def coffeeWaitTime_def)
  have 8: "currentState s = IDLE \<and> trim payload = ''on''
         \<and> \<not> timeElapsed t now' 150000 \<longrightarrow>
       handleCoffeeProcess t (callback topic payload now now' s)
         = s\<lparr>lastMQTTMessage := now, eventStartTime := now', currentState := WAITING\<rparr>"
    by (simp add: callback_def dispatch_def handleCoffeeProcess_def coffeeWaitTime_def)
  from 1 2 3 4 5 6 7 8 show ?thesis by blast
qed

theorem brew_cycle_witness:
  "currentState (globals_at_reset []) = IDLE \<and> trim ''on'' = ''on''
   \<and> callback ''cafeteira/start'' ''on'' 1000 1700 (globals_at_reset [])
       = (globals_at_reset [])\<lparr>lastMQTTMessage := 1000, eventStartTime := 1700,
            currentState := WAITING\<rparr>
   \<and> currentState (callback ''cafeteira/start'' ''on'' 1000 1700 (globals_at_reset [])) = WAITING
   \<and> eventStartTime (callback ''cafeteira/start'' ''on'' 1000 1700 (globals_at_reset []))
       \<le> 151700
   \<and> (handleCoffeeProcess 151700
          (callback ''cafeteira/start'' ''on'' 1000 1700 (globals_at_reset []))
        \<noteq> callback ''cafeteira/start'' ''on'' 1000 1700 (globals_at_reset []))
   \<and> handleCoffeeProcess 151699
        (callback ''cafeteira/start'' ''on'' 1000 1700 (globals_at_reset []))
       = callback ''cafeteira/start'' ''on'' 1000 1700 (globals_at_reset [])
   \<and> handleCoffeeProcess 151700
        (callback ''cafeteira/start'' ''on'' 1000 1700 (globals_at_reset []))
       = (callback ''cafeteira/start'' ''on'' 1000 1700 (globals_at_reset []))
           \<lparr>coffeePouredCount := 1, currentState := IDLE\<rparr>
   \<and> currentState (globals_at_reset []) \<noteq> WAITING
   \<and> handleCoffeeProcess 500000 (globals_at_reset []) = globals_at_reset []
   \<and> currentState (callback ''cafeteira/start'' ''on'' 1000 1700 (globals_at_reset [])) \<noteq> IDLE
   \<and> callback ''cafeteira/start'' ''on'' 2000 2700
         (callback ''cafeteira/start'' ''on'' 1000 1700 (globals_at_reset []))
       = (callback ''cafeteira/start'' ''on'' 1000 1700 (globals_at_reset []))
           \<lparr>lastMQTTMessage := 2000\<rparr>
   \<and> timeElapsed 151700 1700 150000
   \<and> handleCoffeeProcess 400000 (handleCoffeeProcess 151700
         (callback ''cafeteira/start'' ''on'' 1000 1700 (globals_at_reset [])))
       = (globals_at_reset [])\<lparr>lastMQTTMessage := 1000, eventStartTime := 1700,
            coffeePouredCount := coffeePouredCount (globals_at_reset []) + 1,
            currentState := IDLE\<rparr>
   \<and> \<not> timeElapsed 151699 1700 150000
   \<and> handleCoffeeProcess 151699
         (callback ''cafeteira/start'' ''on'' 1000 1700 (globals_at_reset []))
       = (globals_at_reset [])\<lparr>lastMQTTMessage := 1000, eventStartTime := 1700,
            currentState := WAITING\<rparr>"
proof -
  let ?s0 = "globals_at_reset []"
  let ?s1 = "callback ''cafeteira/start'' ''on'' 1000 1700 ?s0"
  have i: "currentState ?s0 = IDLE" by (simp add: globals_at_reset_def)
  have t: "trim ''on'' = ''on''" by (simp add: trim_def isspace_def)
  have c: "?s1 = ?s0\<lparr>lastMQTTMessage := 1000, eventStartTime := 1700, currentState := WAITING\<rparr>"
    by (rule brew_cycle [of "globals_at_reset []" "''on''" "''cafeteira/start''" 1000 1700 500000 400000, THEN conjunct1, rule_format]) (simp add: i t)
  have w: "currentState ?s1 = WAITING" and e: "eventStartTime ?s1 = 1700"
    and n: "coffeePouredCount ?s1 = 0"
    by (simp_all add: c) (simp add: globals_at_reset_def)
  have e': "eventStartTime ?s1 \<le> 151700" by (simp add: e)
  have te: "timeElapsed 151700 1700 150000" "\<not> timeElapsed 151699 1700 150000"
    by (simp_all add: timeElapsed_def)
  have nw: "currentState ?s0 \<noteq> WAITING" using i by simp
  have ni: "currentState ?s1 \<noteq> IDLE" using w by simp
  have "handleCoffeeProcess 151699 ?s1
      = (if timeElapsed 151699 (eventStartTime ?s1) 150000
         then ?s1\<lparr>coffeePouredCount := coffeePouredCount ?s1 + 1, currentState := IDLE\<rparr>
         else ?s1)"
    by (rule brew_cycle [of "callback ''cafeteira/start'' ''on'' 1000 1700 (globals_at_reset [])" "''on''" "''cafeteira/start''" 2000 2700 151699 400000, THEN conjunct2, THEN conjunct1, rule_format]) (rule w)
  then have h1: "handleCoffeeProcess 151699 ?s1 = ?s1"
    by (simp only: e te if_False)
  have "handleCoffeeProcess 151700 ?s1
      = (if timeElapsed 151700 (eventStartTime ?s1) 150000
         then ?s1\<lparr>coffeePouredCount := coffeePouredCount ?s1 + 1, currentState := IDLE\<rparr>
         else ?s1)"
    by (rule brew_cycle [of "callback ''cafeteira/start'' ''on'' 1000 1700 (globals_at_reset [])" "''on''" "''cafeteira/start''" 2000 2700 151700 400000, THEN conjunct2, THEN conjunct1, rule_format]) (rule w)
  then have h2: "handleCoffeeProcess 151700 ?s1 = ?s1\<lparr>coffeePouredCount := 1, currentState := IDLE\<rparr>"
    by (simp only: e te if_True n) simp
  have "(handleCoffeeProcess 151700 ?s1 \<noteq> ?s1)
      = (150000 \<le> unat (151700 :: u32) - unat (eventStartTime ?s1))"
    by (rule brew_cycle [of "callback ''cafeteira/start'' ''on'' 1000 1700 (globals_at_reset [])" "''on''" "''cafeteira/start''" 2000 2700 151700 400000, THEN conjunct2, THEN conjunct2, THEN conjunct1, rule_format]) (simp add: w e)
  then have h3: "handleCoffeeProcess 151700 ?s1 \<noteq> ?s1"
    by (simp add: e)
  have k1: "handleCoffeeProcess 500000 ?s0 = ?s0"
    by (rule brew_cycle [of "globals_at_reset []" "''on''" "''cafeteira/start''" 1000 1700 500000 400000, THEN conjunct2, THEN conjunct2, THEN conjunct2, THEN conjunct2, THEN conjunct2, THEN conjunct2, THEN conjunct2, THEN conjunct1, rule_format]) (rule nw)
  have k2: "callback ''cafeteira/start'' ''on'' 2000 2700 ?s1 = ?s1\<lparr>lastMQTTMessage := 2000\<rparr>"
    by (rule brew_cycle [of "callback ''cafeteira/start'' ''on'' 1000 1700 (globals_at_reset [])" "''on''" "''cafeteira/start''" 2000 2700 500000 400000, THEN conjunct2, THEN conjunct2, THEN conjunct2, THEN conjunct2, THEN conjunct2, THEN conjunct2, THEN conjunct2, THEN conjunct2, THEN conjunct1, rule_format]) (simp add: ni t)
  have k3: "handleCoffeeProcess 400000 (handleCoffeeProcess 151700 ?s1)
       = ?s0\<lparr>lastMQTTMessage := 1000, eventStartTime := 1700,
            coffeePouredCount := coffeePouredCount ?s0 + 1, currentState := IDLE\<rparr>"
    by (rule brew_cycle [of "globals_at_reset []" "''on''" "''cafeteira/start''" 1000 1700 151700 400000, THEN conjunct2, THEN conjunct2, THEN conjunct2, THEN conjunct2, THEN conjunct2, THEN conjunct2, THEN conjunct2, THEN conjunct2, THEN conjunct2, THEN conjunct1, rule_format]) (simp add: i t te)
  have k4: "handleCoffeeProcess 151699 ?s1
       = ?s0\<lparr>lastMQTTMessage := 1000, eventStartTime := 1700, currentState := WAITING\<rparr>"
    by (rule brew_cycle [of "globals_at_reset []" "''on''" "''cafeteira/start''" 1000 1700 151699 400000, THEN conjunct2, THEN conjunct2, THEN conjunct2, THEN conjunct2, THEN conjunct2, THEN conjunct2, THEN conjunct2, THEN conjunct2, THEN conjunct2, THEN conjunct2, rule_format]) (simp add: i t te)
  show ?thesis
    by (intro conjI) (fact i t c w e' h1 h2 h3 nw k1 ni k2 te k3 k4)+
qed

end
